theory Spec2Isabelle
  imports Complex_Main "HOL-Library.AList"
begin

section \<open>Emotion scoring core of the AI Pal backend (src/main.py)\<close>

text \<open>
  The three functions of \<^verbatim>\<open>src/main.py\<close> that make up the scoring core are embedded here:
  \<^verbatim>\<open>keyword_based_emotion_detection\<close>, \<^verbatim>\<open>analyze_emotion_text2emotion\<close> and
  \<^verbatim>\<open>get_dominant_emotion\<close>.

  Data model.
  \<^item> A Python \<^verbatim>\<open>str\<close> is a \<^typ>\<open>string\<close>: one \<^typ>\<open>char\<close> per code point, for the code
    points 0 to 255 (ASCII and Latin-1). The character classes of Python 3 on that range
    are written out below.
  \<^item> A Python \<^verbatim>\<open>Dict[str, float]\<close> is an association list in insertion order, which
    is the iteration order of a Python dict; \<^const>\<open>AList.update\<close> is the assignment
    \<^verbatim>\<open>d[k] = v\<close> (in place for a key that is present, appended otherwise).
  \<^item> A score is a \<^typ>\<open>real\<close>. The floats the scorer produces are quotients \<open>c / m\<close> of
    keyword counts with \<open>c \<le> m\<close> and the literal \<^verbatim>\<open>0.1\<close>; the code only compares them and
    tests them against zero, and IEEE division is exact on \<open>m / m\<close> and \<open>c / (2 * c)\<close>, so
    the order and the equalities stated here are those of the floats. NaN and infinities
    are not scores.
  \<^item> Every exception the Python can raise is a value of \<open>py_error\<close>; a function that can
    raise returns \<open>py_error + 'a\<close>.
\<close>

datatype py_error = KeyError | ValueError | LibraryError

type_synonym scoremap = "(string \<times> real) list"

subsection \<open>Characters: \<^verbatim>\<open>str.lower\<close>, \<^verbatim>\<open>str.isspace\<close> and the regex class \<^verbatim>\<open>\w\<close>\<close>

definition code_point :: "char \<Rightarrow> nat" where
  "code_point c = of_char c"

text \<open>\<^verbatim>\<open>str.isspace\<close>, which is what \<^verbatim>\<open>str.split()\<close> splits on: TAB, LF, VT, FF, CR, the
  separators FS, GS, RS, US, the space, NEL and the no-break space.\<close>

definition py_isspace :: "char \<Rightarrow> bool" where
  "py_isspace c =
     (let n = code_point c
      in (9 \<le> n \<and> n \<le> 13) \<or> (28 \<le> n \<and> n \<le> 32) \<or> n = 133 \<or> n = 160)"

text \<open>The class \<^verbatim>\<open>\w\<close> of \<^verbatim>\<open>re\<close> on a \<^verbatim>\<open>str\<close> pattern: the underscore and every
  alphanumeric character (letters, digits, and the Latin-1 ordinal indicators, micro sign,
  superscript digits and vulgar fractions).\<close>

definition is_word_char :: "char \<Rightarrow> bool" where
  "is_word_char c =
     (let n = code_point c
      in (48 \<le> n \<and> n \<le> 57) \<or> (65 \<le> n \<and> n \<le> 90) \<or> n = 95 \<or> (97 \<le> n \<and> n \<le> 122)
         \<or> n = 170 \<or> n = 178 \<or> n = 179 \<or> n = 181 \<or> n = 185 \<or> n = 186
         \<or> (188 \<le> n \<and> n \<le> 190) \<or> (192 \<le> n \<and> n \<le> 214)
         \<or> (216 \<le> n \<and> n \<le> 246) \<or> (248 \<le> n \<and> n \<le> 255))"

text \<open>\<^verbatim>\<open>str.lower\<close> on one character: the capital letters A to Z and the Latin-1 capitals
  (all of 192 to 222 but the multiplication sign) move up by 32.\<close>

definition lower_char :: "char \<Rightarrow> char" where
  "lower_char c =
     (let n = code_point c
      in if (65 \<le> n \<and> n \<le> 90) \<or> (192 \<le> n \<and> n \<le> 214) \<or> (216 \<le> n \<and> n \<le> 222)
         then char_of (n + 32) else c)"

definition py_lower :: "string \<Rightarrow> string" where
  "py_lower text = map lower_char text"

subsection \<open>\<^verbatim>\<open>str.split()\<close>\<close>

text \<open>\<^verbatim>\<open>text.split()\<close> with no argument: the maximal runs of characters that are not
  whitespace. \<open>cur\<close> is the word being read.\<close>

fun split_loop :: "string \<Rightarrow> string \<Rightarrow> string list" where
  "split_loop cur [] = (if cur = [] then [] else [cur])"
| "split_loop cur (c # cs) =
     (if py_isspace c
      then (if cur = [] then split_loop [] cs else cur # split_loop [] cs)
      else split_loop (cur @ [c]) cs)"

definition py_split :: "string \<Rightarrow> string list" where
  "py_split text = split_loop [] text"

subsection \<open>\<^verbatim>\<open>re.findall(r'\b' + re.escape(keyword) + r'\b', text_lower)\<close>\<close>

text \<open>\<^verbatim>\<open>\b\<close> holds at index \<open>i\<close> of \<open>s\<close> when exactly one of the characters before and
  at \<open>i\<close> is a word character; the two ends of the string count as non-word.\<close>

definition word_before :: "string \<Rightarrow> nat \<Rightarrow> bool" where
  "word_before s i = (0 < i \<and> i \<le> length s \<and> is_word_char (s ! (i - 1)))"

definition word_at :: "string \<Rightarrow> nat \<Rightarrow> bool" where
  "word_at s i = (i < length s \<and> is_word_char (s ! i))"

definition word_boundary :: "string \<Rightarrow> nat \<Rightarrow> bool" where
  "word_boundary s i = (word_before s i \<noteq> word_at s i)"

text \<open>The pattern matches at index \<open>i\<close>: a boundary, the keyword itself (every keyword of
  the lexicon is made of letters, which \<^verbatim>\<open>re.escape\<close> leaves as they are), a boundary.\<close>

definition match_at :: "string \<Rightarrow> string \<Rightarrow> nat \<Rightarrow> bool" where
  "match_at keyword s i =
     (word_boundary s i \<and> take (length keyword) (drop i s) = keyword
      \<and> word_boundary s (i + length keyword))"

text \<open>The scan of \<^verbatim>\<open>re.findall\<close>: try each index from the left; after a match go on at
  its end (one further after an empty match), otherwise at the next index. The result
  is the list of the indices where a match starts.\<close>

function scan :: "string \<Rightarrow> string \<Rightarrow> nat \<Rightarrow> nat list" where
  "scan keyword s pos =
     (if length s < pos then []
      else if match_at keyword s pos
      then pos # scan keyword s (pos + max 1 (length keyword))
      else scan keyword s (pos + 1))"
  by pat_completeness auto
termination
  by (relation "measure (\<lambda>(keyword, s, pos). Suc (length s) - pos)") auto

declare scan.simps [simp del]

text \<open>\<^verbatim>\<open>re.findall\<close> returns the matched substrings.\<close>

definition re_findall :: "string \<Rightarrow> string \<Rightarrow> string list" where
  "re_findall keyword s = map (\<lambda>i. take (length keyword) (drop i s)) (scan keyword s 0)"

subsection \<open>Dictionary and builtin helpers\<close>

definition dict_values :: "scoremap \<Rightarrow> real list" where
  "dict_values d = map snd d"

text \<open>\<^verbatim>\<open>any(xs)\<close> on floats: some element is not zero.\<close>

definition py_any :: "real list \<Rightarrow> bool" where
  "py_any xs = list_ex (\<lambda>x. x \<noteq> 0) xs"

text \<open>\<^verbatim>\<open>max(xs, key=key)\<close>: the first element is the candidate, and a later element replaces
  it only when its key is strictly greater; an empty argument raises ValueError.\<close>

fun max_loop :: "('a \<Rightarrow> real) \<Rightarrow> 'a \<Rightarrow> 'a list \<Rightarrow> 'a" where
  "max_loop key best [] = best"
| "max_loop key best (x # xs) = max_loop key (if key best < key x then x else best) xs"

definition py_max_key :: "('a \<Rightarrow> real) \<Rightarrow> 'a list \<Rightarrow> py_error + 'a" where
  "py_max_key key xs = (case xs of [] \<Rightarrow> Inl ValueError | x # rest \<Rightarrow> Inr (max_loop key x rest))"

definition py_max :: "real list \<Rightarrow> py_error + real" where
  "py_max xs = py_max_key (\<lambda>x. x) xs"

subsection \<open>\<^verbatim>\<open>keyword_based_emotion_detection\<close>\<close>

definition emotion_keywords :: "(string \<times> string list) list" where
  "emotion_keywords =
     [(''happy'', [''happy'', ''joy'', ''excited'', ''great'', ''amazing'', ''wonderful'',
                   ''fantastic'', ''awesome'', ''good'', ''love'', ''smile'', ''laugh'',
                   ''cheerful'', ''delighted'']),
      (''sad'', [''sad'', ''depressed'', ''unhappy'', ''miserable'', ''upset'', ''down'', ''blue'',
                 ''grief'', ''sorrow'', ''cry'', ''tears'', ''lonely'', ''heartbroken'']),
      (''angry'', [''angry'', ''mad'', ''furious'', ''rage'', ''hate'', ''annoyed'', ''frustrated'',
                   ''irritated'', ''pissed'', ''outraged'', ''livid'', ''enraged'']),
      (''fear'', [''afraid'', ''scared'', ''fear'', ''terrified'', ''worried'', ''anxious'', ''panic'',
                  ''nervous'', ''frightened'', ''alarmed'', ''concerned'']),
      (''surprise'', [''surprised'', ''shocked'', ''amazed'', ''astonished'', ''stunned'',
                      ''bewildered'', ''confused'', ''wow'', ''unbelievable''])]"

text \<open>\<^verbatim>\<open>scores[emotion] += count\<close>: reading a missing key raises KeyError.\<close>

definition add_count :: "scoremap \<Rightarrow> string \<Rightarrow> nat \<Rightarrow> py_error + scoremap" where
  "add_count scores emotion count =
     (case map_of scores emotion of
        None \<Rightarrow> Inl KeyError
      | Some v \<Rightarrow> Inr (AList.update emotion (v + real count) scores))"

text \<open>The inner loop \<^verbatim>\<open>for keyword in keywords\<close>.\<close>

fun count_keywords :: "string \<Rightarrow> string \<Rightarrow> string list \<Rightarrow> scoremap \<Rightarrow> py_error + scoremap" where
  "count_keywords text_lower emotion [] scores = Inr scores"
| "count_keywords text_lower emotion (keyword # keywords) scores =
     (case add_count scores emotion (length (re_findall keyword text_lower)) of
        Inl e \<Rightarrow> Inl e
      | Inr scores' \<Rightarrow> count_keywords text_lower emotion keywords scores')"

text \<open>The outer loop \<^verbatim>\<open>for emotion, keywords in emotion_keywords.items()\<close>.\<close>

fun count_emotions :: "string \<Rightarrow> (string \<times> string list) list \<Rightarrow> scoremap \<Rightarrow> py_error + scoremap" where
  "count_emotions text_lower [] scores = Inr scores"
| "count_emotions text_lower ((emotion, keywords) # items) scores =
     (case count_keywords text_lower emotion keywords scores of
        Inl e \<Rightarrow> Inl e
      | Inr scores' \<Rightarrow> count_emotions text_lower items scores')"

definition keyword_based_emotion_detection :: "string \<Rightarrow> py_error + scoremap" where
  "keyword_based_emotion_detection text =
     (let text_lower = py_lower text;
          scores = map (\<lambda>(emotion, keywords). (emotion, 0)) emotion_keywords;
          total_words = length (py_split text)
      in if total_words = 0 then Inr scores
         else
           case count_emotions text_lower emotion_keywords scores of
             Inl e \<Rightarrow> Inl e
           | Inr scores \<Rightarrow>
               (case (if py_any (dict_values scores) then py_max (dict_values scores) else Inr 1) of
                  Inl e \<Rightarrow> Inl e
                | Inr max_score \<Rightarrow>
                    (let scores = (if 0 < max_score
                                   then map (\<lambda>(k, v). (k, v / max_score)) scores
                                   else scores);
                         scores = (if list_all (\<lambda>score. score = 0) (dict_values scores)
                                   then AList.update ''happy'' (1 / 10) scores
                                   else scores)
                     in Inr scores)))"

subsection \<open>\<^verbatim>\<open>analyze_emotion_text2emotion\<close>\<close>

definition emotion_mapping :: "(string \<times> string) list" where
  "emotion_mapping =
     [(''Happy'', ''happy''), (''Angry'', ''angry''), (''Sad'', ''sad''),
      (''Surprise'', ''surprise''), (''Fear'', ''fear'')]"

text \<open>\<^verbatim>\<open>emotions.get(original, 0.0)\<close>.\<close>

definition dict_get_default :: "scoremap \<Rightarrow> string \<Rightarrow> real \<Rightarrow> real" where
  "dict_get_default d k dflt = (case map_of d k of None \<Rightarrow> dflt | Some v \<Rightarrow> v)"

fun map_emotions :: "scoremap \<Rightarrow> (string \<times> string) list \<Rightarrow> scoremap \<Rightarrow> scoremap" where
  "map_emotions emotions [] mapped_emotions = mapped_emotions"
| "map_emotions emotions ((original, mapped) # items) mapped_emotions =
     map_emotions emotions items
       (AList.update mapped (dict_get_default emotions original 0) mapped_emotions)"

text \<open>The library call \<^verbatim>\<open>te.get_emotion\<close> is a parameter: on a text it either raises (a
  subclass of \<^verbatim>\<open>Exception\<close>, which the \<^verbatim>\<open>except Exception\<close> clause catches) or returns a
  dictionary.\<close>

definition analyze_emotion_text2emotion ::
    "(string \<Rightarrow> py_error + scoremap) \<Rightarrow> string \<Rightarrow> py_error + scoremap" where
  "analyze_emotion_text2emotion get_emotion text =
     (case get_emotion text of
        Inr emotions \<Rightarrow> Inr (map_emotions emotions emotion_mapping [])
      | Inl e \<Rightarrow> keyword_based_emotion_detection text)"

subsection \<open>\<^verbatim>\<open>get_dominant_emotion\<close>\<close>

definition get_dominant_emotion :: "scoremap \<Rightarrow> py_error + (string \<times> real)" where
  "get_dominant_emotion emotions =
     (if emotions = [] \<or> list_all (\<lambda>score. score = 0) (dict_values emotions)
      then Inr (''neutral'', 0)
      else
        case py_max_key snd emotions of
          Inl e \<Rightarrow> Inl e
        | Inr (emotion, confidence) \<Rightarrow>
            if confidence < 1 / 10 then Inr (''calm'', confidence)
            else Inr (emotion, confidence))"

section \<open>Closed forms used by the proofs\<close>

text \<open>The categories in the order the lexicon declares them, the score map the scorer
  starts from, and the score map of a text with words but no keyword.\<close>

abbreviation categories :: "string list" where
  "categories \<equiv> [''happy'', ''sad'', ''angry'', ''fear'', ''surprise'']"

abbreviation zero_scores :: scoremap where
  "zero_scores \<equiv> [(''happy'', 0), (''sad'', 0), (''angry'', 0), (''fear'', 0), (''surprise'', 0)]"

abbreviation baseline_scores :: scoremap where
  "baseline_scores \<equiv>
     [(''happy'', 1 / 10), (''sad'', 0), (''angry'', 0), (''fear'', 0), (''surprise'', 0)]"

text \<open>What the two loops add up for one category: the sum over its keywords of the
  number of matches. \<open>raw_scores\<close> is the dictionary the loops leave behind, as
  \<open>count_emotions_raw\<close> proves.\<close>

definition category_count :: "string \<Rightarrow> string list \<Rightarrow> nat" where
  "category_count text_lower kws =
     sum_list (map (\<lambda>keyword. length (re_findall keyword text_lower)) kws)"

definition raw_scores :: "string \<Rightarrow> scoremap" where
  "raw_scores text_lower =
     map (\<lambda>(emotion, kws). (emotion, real (category_count text_lower kws))) emotion_keywords"

text \<open>The lookup \<^verbatim>\<open>emotion_keywords[emotion]\<close>, to name the keyword list of one category.\<close>

definition keywords_of :: "string \<Rightarrow> string list" where
  "keywords_of emotion = (case map_of emotion_keywords emotion of None \<Rightarrow> [] | Some kws \<Rightarrow> kws)"

text \<open>The tie-break as the specification words it: the first category, in the order the
  lexicon declares them, whose score is the maximum of the score map.\<close>

definition spec_tie_break :: "scoremap \<Rightarrow> string option" where
  "spec_tie_break scores =
     find (\<lambda>c. map_of scores c = Some (Max (set (dict_values scores)))) categories"

section \<open>Characters and splitting\<close>

lemma isspace_lower: "py_isspace c \<Longrightarrow> lower_char c = c"
  by (auto simp: py_isspace_def lower_char_def Let_def)

lemma isspace_not_word: "py_isspace c \<Longrightarrow> \<not> is_word_char c"
  by (auto simp: py_isspace_def is_word_char_def Let_def)

lemma word_lower_not_space: "is_word_char (lower_char c) \<Longrightarrow> \<not> py_isspace c"
  using isspace_lower isspace_not_word by force

lemma split_loop_Nil:
  "split_loop cur s = [] \<longleftrightarrow> cur = [] \<and> (\<forall>c\<in>set s. py_isspace c)"
  by (induction cur s rule: split_loop.induct) auto

lemma py_split_Nil: "py_split s = [] \<longleftrightarrow> (\<forall>c\<in>set s. py_isspace c)"
  by (simp add: py_split_def split_loop_Nil)

section \<open>The scan reports matches only\<close>

lemma scan_match: "i \<in> set (scan keyword s pos) \<Longrightarrow> pos \<le> i \<and> match_at keyword s i"
proof (induction keyword s pos rule: scan.induct)
  case (1 keyword s pos)
  show ?case
  proof (cases "length s < pos")
    case True
    with "1.prems" show ?thesis by (simp add: scan.simps)
  next
    case False
    show ?thesis
    proof (cases "match_at keyword s pos")
      case True
      with False "1.prems"
      have "i = pos \<or> i \<in> set (scan keyword s (pos + max 1 (length keyword)))"
        by (subst (asm) scan.simps) auto
      with "1.IH"(1)[OF False True] True show ?thesis by auto
    next
      case nomatch: False
      with False "1.prems" have "i \<in> set (scan keyword s (pos + 1))"
        by (subst (asm) scan.simps) auto
      with "1.IH"(2)[OF False nomatch] show ?thesis by auto
    qed
  qed
qed

section \<open>The counting loops\<close>

lemma category_count_simps:
  "category_count s [] = 0"
  "category_count s (k # ks) = length (re_findall k s) + category_count s ks"
  by (simp_all add: category_count_def)

lemma count_keywords_sum:
  "map_of scores emotion = Some v \<Longrightarrow>
   count_keywords s emotion kws scores =
     Inr (AList.update emotion (v + real (category_count s kws)) scores)"
proof (induction kws arbitrary: scores v)
  case Nil
  then show ?case by (simp add: category_count_simps update_triv)
next
  case (Cons k ks)
  have "map_of (AList.update emotion (v + real (length (re_findall k s))) scores) emotion
          = Some (v + real (length (re_findall k s)))"
    by (simp add: update_conv')
  from Cons.IH[OF this] Cons.prems show ?case
    by (simp add: add_count_def category_count_simps add.assoc)
qed

lemma count_emotions_raw:
  "count_emotions s emotion_keywords (map (\<lambda>(emotion, kws). (emotion, 0)) emotion_keywords)
     = Inr (raw_scores s)"
  unfolding emotion_keywords_def raw_scores_def
  by (simp add: count_keywords_sum del: count_keywords.simps)

lemma raw_scores_keys: "map fst (raw_scores s) = categories"
  by (simp add: raw_scores_def emotion_keywords_def)

lemma raw_scores_nonneg: "v \<in> set (dict_values (raw_scores s)) \<Longrightarrow> 0 \<le> v"
  by (auto simp: raw_scores_def dict_values_def)

lemma raw_scores_nonempty: "dict_values (raw_scores s) \<noteq> []"
  by (simp add: raw_scores_def dict_values_def emotion_keywords_def)

lemma raw_scores_all_zero:
  "\<forall>v\<in>set (dict_values (raw_scores s)). v = 0 \<Longrightarrow> raw_scores s = zero_scores"
  by (simp add: raw_scores_def dict_values_def emotion_keywords_def)

section \<open>The builtin \<^verbatim>\<open>max\<close>\<close>

lemma max_loop_mem: "max_loop key best xs \<in> set (best # xs)"
  by (induction xs arbitrary: best) auto

lemma max_loop_ge: "x \<in> set (best # xs) \<Longrightarrow> key x \<le> key (max_loop key best xs)"
proof (induction xs arbitrary: best x)
  case Nil
  then show ?case by simp
next
  case (Cons y ys)
  let ?b = "if key best < key y then y else best"
  have "key ?b \<le> key (max_loop key ?b ys)"
    using Cons.IH[where x="?b" and best="?b"] by simp
  moreover have "x \<in> set ys \<Longrightarrow> key x \<le> key (max_loop key ?b ys)"
    using Cons.IH[where x=x and best="?b"] by simp
  ultimately show ?case using Cons.prems by (auto split: if_splits)
qed

lemma max_loop_key: "key (max_loop key best xs) = Max (key ` set (best # xs))"
proof (rule sym, rule Max_eqI)
  show "finite (key ` set (best # xs))" by simp
  show "\<And>y. y \<in> key ` set (best # xs) \<Longrightarrow> y \<le> key (max_loop key best xs)"
    using max_loop_ge[of _ best xs key] by auto
  show "key (max_loop key best xs) \<in> key ` set (best # xs)"
    using max_loop_mem[of key best xs] by blast
qed

lemma py_max_Max: "xs \<noteq> [] \<Longrightarrow> py_max xs = Inr (Max (set xs))"
  using max_loop_key[of "\<lambda>x. x"]
  by (cases xs) (simp_all add: py_max_def py_max_key_def)

section \<open>The three outcomes of the scorer\<close>

lemma kbed_no_words:
  "py_split text = [] \<Longrightarrow> keyword_based_emotion_detection text = Inr zero_scores"
  by (simp add: keyword_based_emotion_detection_def emotion_keywords_def)

lemma kbed_no_match:
  assumes "py_split text \<noteq> []"
    and "\<forall>v\<in>set (dict_values (raw_scores (py_lower text))). v = 0"
  shows "keyword_based_emotion_detection text = Inr baseline_scores"
proof -
  have r: "raw_scores (py_lower text) = zero_scores"
    using assms(2) by (rule raw_scores_all_zero)
  have "\<not> py_any (dict_values zero_scores)"
    by (simp add: py_any_def dict_values_def)
  moreover have "list_all (\<lambda>score. score = 0)
                   (dict_values (map (\<lambda>(k, v). (k, v / 1)) zero_scores))"
    by (simp add: dict_values_def)
  moreover have "AList.update ''happy'' (1 / 10) (map (\<lambda>(k, v). (k, v / 1)) zero_scores)
                   = baseline_scores"
    by simp
  ultimately show ?thesis
    using assms(1)
    by (simp add: keyword_based_emotion_detection_def count_emotions_raw r Let_def)
qed

lemma kbed_match:
  assumes "py_split text \<noteq> []"
    and "\<exists>v\<in>set (dict_values (raw_scores (py_lower text))). v \<noteq> 0"
  shows "keyword_based_emotion_detection text =
           Inr (map (\<lambda>(k, v). (k, v / Max (set (dict_values (raw_scores (py_lower text))))))
                  (raw_scores (py_lower text)))"
    and "0 < Max (set (dict_values (raw_scores (py_lower text))))"
proof -
  let ?r = "raw_scores (py_lower text)"
  let ?M = "Max (set (dict_values ?r))"
  from assms(2) obtain v where v: "v \<in> set (dict_values ?r)" "v \<noteq> 0" by blast
  with raw_scores_nonneg[of v "py_lower text"] have "0 < v" by simp
  moreover have "v \<le> ?M" using v(1) by simp
  ultimately show M: "0 < ?M" by simp
  have any: "py_any (dict_values ?r)"
    using assms(2) by (simp add: py_any_def list_ex_iff)
  have mx: "py_max (dict_values ?r) = Inr ?M"
    by (rule py_max_Max) (rule raw_scores_nonempty)
  have "v / ?M \<in> set (dict_values (map (\<lambda>(k, v). (k, v / ?M)) ?r))"
    using v(1) by (force simp: dict_values_def)
  moreover have "v / ?M \<noteq> 0" using M v(2) by simp
  ultimately have nz:
    "\<not> list_all (\<lambda>score. score = 0) (dict_values (map (\<lambda>(k, v). (k, v / ?M)) ?r))"
    unfolding list_all_iff by blast
  show "keyword_based_emotion_detection text = Inr (map (\<lambda>(k, v). (k, v / ?M)) ?r)"
    using assms(1) any mx M nz
    by (simp add: keyword_based_emotion_detection_def count_emotions_raw Let_def)
qed

section \<open>The selector\<close>

lemma gde_not_neutral:
  assumes "emotions \<noteq> []" and "\<exists>v\<in>set (dict_values emotions). v \<noteq> 0"
  shows "get_dominant_emotion emotions =
           (let best = max_loop snd (hd emotions) (tl emotions)
            in if snd best < 1 / 10 then Inr (''calm'', snd best) else Inr best)"
proof -
  from assms(1) obtain x xs where e: "emotions = x # xs" by (cases emotions) auto
  have "\<not> list_all (\<lambda>score. score = 0) (dict_values emotions)"
    using assms(2) unfolding list_all_iff by blast
  then show ?thesis
    using assms(1) e
    by (simp add: get_dominant_emotion_def py_max_key_def Let_def split: prod.splits)
qed

lemma max_loop_snd_Max:
  "emotions \<noteq> [] \<Longrightarrow>
   snd (max_loop snd (hd emotions) (tl emotions)) = Max (set (dict_values emotions))"
  using max_loop_key[of snd "hd emotions" "tl emotions"]
  by (cases emotions) (simp_all add: dict_values_def)

section \<open>Claims about the selector alone\<close>

text \<open>
  Claim C3. For every score map that is empty or in which every value is exactly 0.0,
  \<^verbatim>\<open>get_dominant_emotion\<close> returns the pair \<^verbatim>\<open>('neutral', 0.0)\<close>.
\<close>

theorem all_zero_selects_neutral:
  "emotions = [] \<or> (\<forall>v\<in>set (dict_values emotions). v = 0) \<Longrightarrow>
   get_dominant_emotion emotions = Inr (''neutral'', 0)"
  by (auto simp: get_dominant_emotion_def list_all_iff)

theorem all_zero_selects_neutral_witness:
  "(zero_scores = [] \<or> (\<forall>v\<in>set (dict_values zero_scores). v = 0))
   \<and> get_dominant_emotion zero_scores = Inr (''neutral'', 0)
   \<and> get_dominant_emotion [] = Inr (''neutral'', 0)"
  using all_zero_selects_neutral[of zero_scores] all_zero_selects_neutral[of "[]"]
  by (simp add: dict_values_def)

text \<open>
  Claim C2. For every score map whose maximum value lies strictly between 0 and 0.1,
  \<^verbatim>\<open>get_dominant_emotion\<close> returns the label \<^verbatim>\<open>'calm'\<close> and, as confidence, that maximum
  value; the name of the category that holds the maximum is not returned.
\<close>

theorem low_maximum_selects_calm:
  assumes "emotions \<noteq> []"
    and "0 < Max (set (dict_values emotions))"
    and "Max (set (dict_values emotions)) < 1 / 10"
  shows "get_dominant_emotion emotions = Inr (''calm'', Max (set (dict_values emotions)))"
proof -
  have "Max (set (dict_values emotions)) \<in> set (dict_values emotions)"
    using assms(1) by (intro Max_in) (simp_all add: dict_values_def)
  with assms(2) have "\<exists>v\<in>set (dict_values emotions). v \<noteq> 0" by force
  from gde_not_neutral[OF assms(1) this] max_loop_snd_Max[OF assms(1)] assms(3)
  show ?thesis by (simp add: Let_def)
qed

theorem low_maximum_selects_calm_witness:
  "[(''sad'', 1 / 20), (''angry'', 1 / 50)] \<noteq> []
   \<and> 0 < Max (set (dict_values [(''sad'', 1 / 20), (''angry'', 1 / 50)]))
   \<and> Max (set (dict_values [(''sad'', 1 / 20), (''angry'', 1 / 50)])) < 1 / 10
   \<and> get_dominant_emotion [(''sad'', 1 / 20), (''angry'', 1 / 50)] = Inr (''calm'', 1 / 20)"
proof -
  have m: "Max (set (dict_values [(''sad'', 1 / 20), (''angry'', 1 / 50 :: real)])) = 1 / 20"
    by (simp add: dict_values_def)
  show ?thesis
    using low_maximum_selects_calm[of "[(''sad'', 1 / 20), (''angry'', 1 / 50)]"]
    by (simp add: m)
qed

section \<open>Every result of the scorer is a valid score map\<close>

lemma normalised_keys: "map fst (map (\<lambda>(k, v). (k, f v)) scores) = map fst scores"
  by (induction scores) auto

lemma normalised_values:
  "dict_values (map (\<lambda>(k, v). (k, f v)) scores) = map f (dict_values scores)"
  by (induction scores) (auto simp: dict_values_def)

lemma kbed_valid:
  "\<exists>scores. keyword_based_emotion_detection text = Inr scores
      \<and> map fst scores = categories
      \<and> (\<forall>v\<in>set (dict_values scores). 0 \<le> v \<and> v \<le> 1)"
proof (cases "py_split text = []")
  case True
  then show ?thesis by (simp add: kbed_no_words dict_values_def)
next
  case words: False
  let ?r = "raw_scores (py_lower text)"
  let ?M = "Max (set (dict_values ?r))"
  show ?thesis
  proof (cases "\<forall>v\<in>set (dict_values ?r). v = 0")
    case True
    with words show ?thesis by (simp add: kbed_no_match dict_values_def)
  next
    case False
    then have ex: "\<exists>v\<in>set (dict_values ?r). v \<noteq> 0" by simp
    note k = kbed_match[OF words ex]
    let ?n = "map (\<lambda>(k, v). (k, v / ?M)) ?r"
    have keys: "map fst ?n = categories"
      by (simp only: normalised_keys raw_scores_keys)
    have "0 \<le> v / ?M \<and> v / ?M \<le> 1" if "v \<in> set (dict_values ?r)" for v
    proof -
      have "0 \<le> v" using that by (rule raw_scores_nonneg)
      moreover have "v \<le> ?M" using that by simp
      ultimately show ?thesis using k(2) by simp
    qed
    then have vals: "\<forall>v\<in>set (dict_values ?n). 0 \<le> v \<and> v \<le> 1"
      unfolding normalised_values by auto
    show ?thesis
    proof (intro exI conjI)
      show "keyword_based_emotion_detection text = Inr ?n" by (rule k(1))
      show "map fst ?n = categories" by (rule keys)
      show "\<forall>v\<in>set (dict_values ?n). 0 \<le> v \<and> v \<le> 1" by (rule vals)
    qed
  qed
qed

lemma kbed_words:
  assumes "py_split text \<noteq> []"
  shows "\<exists>scores. keyword_based_emotion_detection text = Inr scores
      \<and> map fst scores = categories
      \<and> 1 / 10 \<le> Max (set (dict_values scores))"
proof -
  let ?r = "raw_scores (py_lower text)"
  let ?M = "Max (set (dict_values ?r))"
  show ?thesis
  proof (cases "\<forall>v\<in>set (dict_values ?r). v = 0")
    case True
    with assms show ?thesis by (simp add: kbed_no_match dict_values_def)
  next
    case False
    then have ex: "\<exists>v\<in>set (dict_values ?r). v \<noteq> 0" by simp
    note k = kbed_match[OF assms ex]
    let ?n = "map (\<lambda>(k, v). (k, v / ?M)) ?r"
    have keys: "map fst ?n = categories"
      by (simp only: normalised_keys raw_scores_keys)
    have "?M \<in> set (dict_values ?r)"
      by (intro Max_in) (simp_all add: raw_scores_nonempty)
    then have "?M / ?M \<in> (\<lambda>v. v / ?M) ` set (dict_values ?r)"
      by (rule imageI)
    then have "1 \<in> set (dict_values ?n)"
      unfolding normalised_values using k(2) by simp
    then have "1 \<le> Max (set (dict_values ?n))" by simp
    then have big: "1 / 10 \<le> Max (set (dict_values ?n))" by simp
    show ?thesis
    proof (intro exI conjI)
      show "keyword_based_emotion_detection text = Inr ?n" by (rule k(1))
      show "map fst ?n = categories" by (rule keys)
      show "1 / 10 \<le> Max (set (dict_values ?n))" by (rule big)
    qed
  qed
qed

lemma gde_strong:
  assumes "emotions \<noteq> []" and "1 / 10 \<le> Max (set (dict_values emotions))"
  shows "get_dominant_emotion emotions = Inr (max_loop snd (hd emotions) (tl emotions))"
proof -
  have "Max (set (dict_values emotions)) \<in> set (dict_values emotions)"
    using assms(1) by (intro Max_in) (simp_all add: dict_values_def)
  with assms(2) have "\<exists>v\<in>set (dict_values emotions). v \<noteq> 0" by force
  from gde_not_neutral[OF assms(1) this] max_loop_snd_Max[OF assms(1)] assms(2)
  show ?thesis by (simp add: Let_def)
qed

lemma max_loop_hd_tl_mem: "emotions \<noteq> [] \<Longrightarrow> max_loop key (hd emotions) (tl emotions) \<in> set emotions"
  using max_loop_mem[of key "hd emotions" "tl emotions"] by (cases emotions) simp_all

section \<open>Claims about the scorer\<close>

text \<open>
  Claim C4. For every non-empty input text the keyword scorer returns, without raising,
  a score map whose keys are exactly the five categories happy, sad, angry, fear and
  surprise, each once, and whose values all lie in the closed interval from 0 to 1.
\<close>

theorem scorer_five_categories_in_unit_interval:
  "text \<noteq> [] \<Longrightarrow>
   \<exists>scores. keyword_based_emotion_detection text = Inr scores
      \<and> map fst scores = [''happy'', ''sad'', ''angry'', ''fear'', ''surprise'']
      \<and> (\<forall>v\<in>set (dict_values scores). 0 \<le> v \<and> v \<le> 1)"
  by (rule kbed_valid)

theorem scorer_five_categories_in_unit_interval_witness:
  "''so glad'' \<noteq> [] \<and>
   (\<exists>scores. keyword_based_emotion_detection ''so glad'' = Inr scores
      \<and> map fst scores = [''happy'', ''sad'', ''angry'', ''fear'', ''surprise'']
      \<and> (\<forall>v\<in>set (dict_values scores). 0 \<le> v \<and> v \<le> 1))"
  using scorer_five_categories_in_unit_interval[of "''so glad''"] by simp

text \<open>
  Claim C5. A text has zero words exactly when it is empty or made of whitespace only.
  For every such text the scorer returns every category at 0.0 (the counts are not
  normalised and \<^verbatim>\<open>happy\<close> does not get the baseline 0.1), and the selector applied to
  that score map returns \<^verbatim>\<open>('neutral', 0.0)\<close>.
\<close>

theorem zero_words_all_zero_and_neutral:
  "(length (py_split text) = 0 \<longleftrightarrow> text = [] \<or> (\<forall>c\<in>set text. py_isspace c))
   \<and> (length (py_split text) = 0 \<longrightarrow>
        keyword_based_emotion_detection text =
          Inr [(''happy'', 0), (''sad'', 0), (''angry'', 0), (''fear'', 0), (''surprise'', 0)]
        \<and> get_dominant_emotion
            [(''happy'', 0), (''sad'', 0), (''angry'', 0), (''fear'', 0), (''surprise'', 0)]
          = Inr (''neutral'', 0))"
proof -
  have "get_dominant_emotion zero_scores = Inr (''neutral'', 0)"
    by (simp add: get_dominant_emotion_def dict_values_def)
  then show ?thesis
    using py_split_Nil[of "text"] kbed_no_words[of "text"] by auto
qed

theorem zero_words_all_zero_and_neutral_witness:
  "length (py_split [CHR '' '', CHR 0x09, CHR 0x0A]) = 0
   \<and> keyword_based_emotion_detection [CHR '' '', CHR 0x09, CHR 0x0A] =
          Inr [(''happy'', 0), (''sad'', 0), (''angry'', 0), (''fear'', 0), (''surprise'', 0)]
   \<and> length (py_split '''') = 0
   \<and> keyword_based_emotion_detection '''' =
          Inr [(''happy'', 0), (''sad'', 0), (''angry'', 0), (''fear'', 0), (''surprise'', 0)]
   \<and> get_dominant_emotion
            [(''happy'', 0), (''sad'', 0), (''angry'', 0), (''fear'', 0), (''surprise'', 0)]
          = Inr (''neutral'', 0)"
proof -
  have a: "length (py_split [CHR '' '', CHR 0x09, CHR 0x0A]) = 0"
    by (simp add: py_split_def py_isspace_def code_point_def)
  have b: "length (py_split '''') = 0"
    by (simp add: py_split_def)
  show ?thesis
    using zero_words_all_zero_and_neutral[of "[CHR '' '', CHR 0x09, CHR 0x0A]"]
      zero_words_all_zero_and_neutral[of "''''"] a b
    by simp
qed

text \<open>
  Claim C9. For every input text, when \<^verbatim>\<open>te.get_emotion\<close> raises,
  \<^verbatim>\<open>analyze_emotion_text2emotion\<close> returns exactly what
  \<^verbatim>\<open>keyword_based_emotion_detection\<close> returns on the same text and raises nothing itself:
  the result is a score map over the five categories with values between 0 and 1.
\<close>

theorem library_failure_falls_back_to_keywords:
  "get_emotion text = Inl e \<Longrightarrow>
   analyze_emotion_text2emotion get_emotion text = keyword_based_emotion_detection text
   \<and> (\<exists>scores. analyze_emotion_text2emotion get_emotion text = Inr scores
        \<and> map fst scores = [''happy'', ''sad'', ''angry'', ''fear'', ''surprise'']
        \<and> (\<forall>v\<in>set (dict_values scores). 0 \<le> v \<and> v \<le> 1))"
  using kbed_valid[of "text"] by (simp add: analyze_emotion_text2emotion_def)

theorem library_failure_falls_back_to_keywords_witness:
  "(\<lambda>t. Inl LibraryError) ''I am mad'' = (Inl LibraryError :: py_error + scoremap)
   \<and> analyze_emotion_text2emotion (\<lambda>t. Inl LibraryError) ''I am mad''
       = keyword_based_emotion_detection ''I am mad''"
  using library_failure_falls_back_to_keywords[of "\<lambda>t. Inl LibraryError" "''I am mad''" LibraryError]
  by simp

lemma categories_not_neutral: "c \<in> set categories \<Longrightarrow> c \<noteq> ''neutral''"
  by auto

text \<open>
  Claim C10. For every input text with at least one whitespace-separated word the scorer
  returns a score map that is not all-zero (the baseline 0.1 on \<^verbatim>\<open>happy\<close> when no keyword
  matches), and the selector applied to it returns a label other than \<^verbatim>\<open>'neutral'\<close>. With
  claim C5, \<^verbatim>\<open>'neutral'\<close> is the label of the texts with zero words only.
\<close>

theorem words_never_all_zero_never_neutral:
  assumes "0 < length (py_split text)"
  shows "\<exists>scores label confidence.
           keyword_based_emotion_detection text = Inr scores
           \<and> (\<exists>v\<in>set (dict_values scores). v \<noteq> 0)
           \<and> get_dominant_emotion scores = Inr (label, confidence)
           \<and> label \<noteq> ''neutral''"
proof -
  from assms have "py_split text \<noteq> []" by simp
  from kbed_words[OF this] obtain scores where
    kk: "keyword_based_emotion_detection text = Inr scores
      \<and> map fst scores = categories
      \<and> 1 / 10 \<le> Max (set (dict_values scores))" ..
  then have k: "keyword_based_emotion_detection text = Inr scores"
    and keys: "map fst scores = categories"
    and big: "1 / 10 \<le> Max (set (dict_values scores))"
    by (rule conjunct1, rule conjunct2[THEN conjunct1], rule conjunct2[THEN conjunct2])
  have ne: "scores \<noteq> []"
  proof
    assume "scores = []"
    with keys show False by simp
  qed
  have "Max (set (dict_values scores)) \<in> set (dict_values scores)"
    using ne by (intro Max_in) (simp_all add: dict_values_def)
  with big have nz: "\<exists>v\<in>set (dict_values scores). v \<noteq> 0" by force
  let ?best = "max_loop snd (hd scores) (tl scores)"
  have g: "get_dominant_emotion scores = Inr (fst ?best, snd ?best)"
    using gde_strong[OF ne big] by simp
  have "?best \<in> set scores" using ne by (rule max_loop_hd_tl_mem)
  then have "fst ?best \<in> set (map fst scores)" by (simp only: set_map) (rule imageI)
  then have "fst ?best \<in> set categories" by (simp only: keys)
  then have lab: "fst ?best \<noteq> ''neutral''" by (rule categories_not_neutral)
  show ?thesis
  proof (intro exI conjI)
    show "keyword_based_emotion_detection text = Inr scores" by (rule k)
    show "\<exists>v\<in>set (dict_values scores). v \<noteq> 0" by (rule nz)
    show "get_dominant_emotion scores = Inr (fst ?best, snd ?best)" by (rule g)
    show "fst ?best \<noteq> ''neutral''" by (rule lab)
  qed
qed

theorem words_never_all_zero_never_neutral_witness:
  "0 < length (py_split ''so glad'')
   \<and> (\<exists>scores label confidence.
           keyword_based_emotion_detection ''so glad'' = Inr scores
           \<and> (\<exists>v\<in>set (dict_values scores). v \<noteq> 0)
           \<and> get_dominant_emotion scores = Inr (label, confidence)
           \<and> label \<noteq> ''neutral'')"
proof -
  have a: "0 < length (py_split ''so glad'')"
    by (simp add: py_split_def py_isspace_def code_point_def)
  show ?thesis
    using words_never_all_zero_never_neutral[OF a] a by (intro conjI)
qed

section \<open>Matches are whole words\<close>

lemma lexicon_keywords_words:
  "keyword \<in> set (concat (map snd emotion_keywords)) \<Longrightarrow>
   keyword \<noteq> [] \<and> is_word_char (hd keyword) \<and> is_word_char (last keyword)"
  by (auto simp: emotion_keywords_def is_word_char_def code_point_def)

lemma match_at_edges:
  assumes "keyword \<noteq> []" and "take (length keyword) (drop i s) = keyword"
  shows "i + length keyword \<le> length s"
    and "s ! i = hd keyword"
    and "s ! (i + length keyword - 1) = last keyword"
proof -
  let ?n = "length keyword"
  have "length (take ?n (drop i s)) = ?n" using assms(2) by simp
  then have le: "?n \<le> length s - i" by simp
  have pos: "0 < ?n" using assms(1) by simp
  from le pos show bound: "i + ?n \<le> length s" by arith
  from le pos have lt: "i < length s" by arith
  have "hd keyword = take ?n (drop i s) ! 0"
    using assms by (simp add: hd_conv_nth)
  also have "\<dots> = drop i s ! 0" using pos by (rule nth_take)
  also have "\<dots> = s ! (i + 0)" using lt by (intro nth_drop) simp
  finally show "s ! i = hd keyword" by simp
  have m: "?n - 1 < ?n" using pos by arith
  have "last keyword = take ?n (drop i s) ! (?n - 1)"
    using assms by (simp add: last_conv_nth)
  also have "\<dots> = drop i s ! (?n - 1)" using m by (rule nth_take)
  also have "\<dots> = s ! (i + (?n - 1))" using bound by (intro nth_drop) arith
  also have "i + (?n - 1) = i + ?n - 1" using pos by arith
  finally show "s ! (i + ?n - 1) = last keyword" by simp
qed

lemma match_whole_word:
  assumes "keyword \<noteq> []" and "is_word_char (hd keyword)" and "is_word_char (last keyword)"
    and "match_at keyword s i"
  shows "\<not> word_before s i \<and> \<not> word_at s (i + length keyword)"
proof -
  from assms(4) have b1: "word_boundary s i"
    and eq: "take (length keyword) (drop i s) = keyword"
    and b2: "word_boundary s (i + length keyword)"
    by (simp_all add: match_at_def)
  note e = match_at_edges[OF assms(1) eq]
  have pos: "0 < length keyword" using assms(1) by simp
  from e(1) pos have lt: "i < length s" by arith
  from pos have pos2: "0 < i + length keyword" by arith
  have "word_at s i" using lt e(2) assms(2) by (simp add: word_at_def)
  with b1 have "\<not> word_before s i" by (simp add: word_boundary_def)
  moreover have "word_before s (i + length keyword)"
    unfolding word_before_def using e(1,3) assms(3) pos2 by simp
  with b2 have "\<not> word_at s (i + length keyword)" by (simp add: word_boundary_def)
  ultimately show ?thesis by simp
qed

section \<open>Claims about keyword matching and normalisation\<close>

text \<open>
  Claim C6. Keyword matching is whole-word. On the input "I am mad about madrid" the scan
  for the keyword "mad" reports one match, the standalone word at index 5, so the count
  added to the score is 1 and not 2. For every keyword of the lexicon, every string and
  every index: an occurrence with a word character directly before it or directly after
  it is not among the matches the scan reports.
\<close>

theorem whole_word_matching:
  "scan ''mad'' (py_lower ''I am mad about madrid'') 0 = [5]
   \<and> length (re_findall ''mad'' (py_lower ''I am mad about madrid'')) = 1
   \<and> (keyword \<in> set (concat (map snd emotion_keywords)) \<longrightarrow>
        word_before s i \<or> word_at s (i + length keyword) \<longrightarrow>
        i \<notin> set (scan keyword s pos))"
proof (intro conjI impI)
  show sc: "scan ''mad'' (py_lower ''I am mad about madrid'') 0 = [5]"
    by code_simp
  show "length (re_findall ''mad'' (py_lower ''I am mad about madrid'')) = 1"
    by (simp only: re_findall_def sc) simp
next
  assume kw: "keyword \<in> set (concat (map snd emotion_keywords))"
    and adj: "word_before s i \<or> word_at s (i + length keyword)"
  show "i \<notin> set (scan keyword s pos)"
  proof
    assume "i \<in> set (scan keyword s pos)"
    then have "match_at keyword s i" by (simp add: scan_match)
    with lexicon_keywords_words[OF kw]
    have "\<not> word_before s i \<and> \<not> word_at s (i + length keyword)"
      by (intro match_whole_word) simp_all
    with adj show False by simp
  qed
qed

theorem whole_word_matching_witness:
  "''mad'' \<in> set (concat (map snd emotion_keywords))
   \<and> word_at (py_lower ''I am mad about madrid'') (15 + length ''mad'')
   \<and> 15 \<notin> set (scan ''mad'' (py_lower ''I am mad about madrid'') 0)"
proof -
  have a: "''mad'' \<in> set (concat (map snd emotion_keywords))"
    by (simp add: emotion_keywords_def)
  have b: "word_at (py_lower ''I am mad about madrid'') (15 + length ''mad'')"
    by code_simp
  from whole_word_matching[of "''mad''" "py_lower ''I am mad about madrid''" 15 0] a b
  have "15 \<notin> set (scan ''mad'' (py_lower ''I am mad about madrid'') 0)"
    by (elim conjE) (drule (1) mp, simp)
  with a b show ?thesis by (intro conjI)
qed

section \<open>A text without words has no keyword match\<close>

lemma scan_needs_word:
  assumes "keyword \<noteq> []" and "is_word_char (hd keyword)"
    and "\<forall>c\<in>set t. py_isspace c"
  shows "scan keyword (py_lower t) pos = []"
proof (rule ccontr)
  assume "scan keyword (py_lower t) pos \<noteq> []"
  then obtain i where "i \<in> set (scan keyword (py_lower t) pos)"
    by (cases "scan keyword (py_lower t) pos") auto
  then have "match_at keyword (py_lower t) i" by (simp add: scan_match)
  then have eq: "take (length keyword) (drop i (py_lower t)) = keyword"
    by (simp add: match_at_def)
  note e = match_at_edges[OF assms(1) eq]
  have pos: "0 < length keyword" using assms(1) by simp
  have "length (py_lower t) = length t" by (simp add: py_lower_def)
  with e(1) pos have lt: "i < length t" by arith
  then have "py_lower t ! i = lower_char (t ! i)" by (simp add: py_lower_def)
  with e(2) assms(2) have "is_word_char (lower_char (t ! i))" by simp
  then have "\<not> py_isspace (t ! i)" by (rule word_lower_not_space)
  moreover have "t ! i \<in> set t" using lt by simp
  ultimately show False using assms(3) by blast
qed

lemma category_count_no_words:
  assumes "\<forall>c\<in>set t. py_isspace c"
    and "\<forall>keyword\<in>set kws. keyword \<noteq> [] \<and> is_word_char (hd keyword)"
  shows "category_count (py_lower t) kws = 0"
  using assms(2)
  by (induction kws) (simp_all add: category_count_simps re_findall_def scan_needs_word[OF _ _ assms(1)])

lemma raw_scores_no_words:
  assumes "py_split t = []"
  shows "raw_scores (py_lower t) = zero_scores"
proof -
  from assms have sp: "\<forall>c\<in>set t. py_isspace c" by (simp add: py_split_Nil)
  have "category_count (py_lower t) kws = 0" if "(e, kws) \<in> set emotion_keywords" for e kws
  proof (rule category_count_no_words[OF sp], rule ballI)
    fix keyword assume "keyword \<in> set kws"
    with that have "keyword \<in> set (concat (map snd emotion_keywords))" by force
    then show "keyword \<noteq> [] \<and> is_word_char (hd keyword)"
      using lexicon_keywords_words by blast
  qed
  then have "\<forall>v\<in>set (dict_values (raw_scores (py_lower t))). v = 0"
    by (auto simp: raw_scores_def dict_values_def)
  then show ?thesis by (rule raw_scores_all_zero)
qed

lemma map_of_normalised:
  "map_of (map (\<lambda>(k, v). (k, f v)) scores) c = map_option f (map_of scores c)"
  by (induction scores) auto

lemma raw_scores_distinct: "distinct (map fst (raw_scores s))"
  by (simp add: raw_scores_keys)

section \<open>Evaluating the raw counts of a given text\<close>

text \<open>The raw counts of a text, one category at a time: the dictionary of raw counts has
  one row per category, and each row is evaluated by unfolding the scan. The first text
  evaluated is "joy joy sad", with two matches for happy and one for sad.\<close>

lemma lexicon_rows: "emotion_keywords = map (\<lambda>e. (e, keywords_of e)) categories"
  by (simp add: emotion_keywords_def keywords_of_def)

lemma raw_scores_rows:
  "raw_scores s = map (\<lambda>e. (e, real (category_count s (keywords_of e)))) categories"
  by (subst raw_scores_def, subst lexicon_rows) simp

lemmas scan_eval =
  category_count_def re_findall_def scan.simps match_at_def word_boundary_def
  word_before_def word_at_def is_word_char_def code_point_def

lemma joy_lower: "py_lower ''joy joy sad'' = ''joy joy sad''"
  by (simp add: py_lower_def lower_char_def code_point_def)

lemma joy_happy: "category_count ''joy joy sad'' (keywords_of ''happy'') = 2"
  by (simp add: keywords_of_def emotion_keywords_def scan_eval)

lemma joy_sad: "category_count ''joy joy sad'' (keywords_of ''sad'') = 1"
  by (simp add: keywords_of_def emotion_keywords_def scan_eval)

lemma joy_angry: "category_count ''joy joy sad'' (keywords_of ''angry'') = 0"
  by (simp add: keywords_of_def emotion_keywords_def scan_eval)

lemma joy_fear: "category_count ''joy joy sad'' (keywords_of ''fear'') = 0"
  by (simp add: keywords_of_def emotion_keywords_def scan_eval)

lemma joy_surprise: "category_count ''joy joy sad'' (keywords_of ''surprise'') = 0"
  by (simp add: keywords_of_def emotion_keywords_def scan_eval)

text \<open>
  Claim C7. Let \<open>raw\<close> be the dictionary of raw counts the two loops leave behind, with a
  positive maximum. The scorer returns every raw count divided by that maximum, so a
  category whose raw count is the maximum scores exactly 1.0; and when category \<open>A\<close> has
  twice the raw count of category \<open>B\<close> and every other category has raw count zero, the
  returned score map has \<open>A\<close> at 1.0 and \<open>B\<close> at 0.5.
\<close>

theorem normalisation_divides_by_maximum:
  assumes raw: "count_emotions (py_lower text) emotion_keywords
                  (map (\<lambda>(emotion, kws). (emotion, 0)) emotion_keywords) = Inr raw"
    and pos: "0 < Max (set (dict_values raw))"
  shows "\<exists>scores.
           keyword_based_emotion_detection text = Inr scores
           \<and> scores = map (\<lambda>(k, v). (k, v / Max (set (dict_values raw)))) raw
           \<and> (map_of raw c = Some (Max (set (dict_values raw))) \<longrightarrow> map_of scores c = Some 1)
           \<and> (map_of raw A = Some a \<and> map_of raw B = Some b \<and> A \<noteq> B \<and> a = 2 * b
                \<and> (\<forall>k v. k \<noteq> A \<and> k \<noteq> B \<and> map_of raw k = Some v \<longrightarrow> v = 0)
               \<longrightarrow> map_of scores A = Some 1 \<and> map_of scores B = Some (1 / 2))"
proof -
  let ?M = "Max (set (dict_values raw))"
  let ?n = "map (\<lambda>(k, v). (k, v / ?M)) raw"
  have r: "raw = raw_scores (py_lower text)"
    using raw by (simp add: count_emotions_raw)
  have ne: "dict_values raw \<noteq> []" unfolding r by (rule raw_scores_nonempty)
  then have Min: "?M \<in> set (dict_values raw)" by (intro Max_in) simp_all
  with pos have ex: "\<exists>v\<in>set (dict_values (raw_scores (py_lower text))). v \<noteq> 0"
    unfolding r by force
  have words: "py_split text \<noteq> []"
  proof
    assume "py_split text = []"
    then have "raw = zero_scores" unfolding r by (rule raw_scores_no_words)
    then have "?M = 0" by (simp add: dict_values_def)
    with pos show False by simp
  qed
  have k: "keyword_based_emotion_detection text = Inr ?n"
    using kbed_match(1)[OF words ex] unfolding r .
  have top: "map_of ?n c = Some 1" if "map_of raw c = Some ?M" for c
    using that pos by (simp add: map_of_normalised)
  have two: "map_of ?n A = Some 1 \<and> map_of ?n B = Some (1 / 2)"
    if h: "map_of raw A = Some a \<and> map_of raw B = Some b \<and> A \<noteq> B \<and> a = 2 * b
           \<and> (\<forall>k v. k \<noteq> A \<and> k \<noteq> B \<and> map_of raw k = Some v \<longrightarrow> v = 0)"
  proof -
    from h have hA: "map_of raw A = Some a" and hB: "map_of raw B = Some b"
      and ab: "a = 2 * b"
      and others: "\<And>k v. k \<noteq> A \<Longrightarrow> k \<noteq> B \<Longrightarrow> map_of raw k = Some v \<Longrightarrow> v = 0"
      by blast+
    have d: "distinct (map fst raw)" unfolding r by (rule raw_scores_distinct)
    have ain: "a \<in> set (dict_values raw)"
      using map_of_SomeD[OF hA] by (force simp: dict_values_def)
    have bin: "b \<in> set (dict_values raw)"
      using map_of_SomeD[OF hB] by (force simp: dict_values_def)
    have b0: "0 \<le> b" using bin unfolding r by (rule raw_scores_nonneg)
    have le: "v \<le> a" if "v \<in> set (dict_values raw)" for v
    proof -
      from that obtain k where "(k, v) \<in> set raw" by (auto simp: dict_values_def)
      with d have kv: "map_of raw k = Some v" by simp
      show ?thesis
      proof (cases "k = A")
        case True
        with kv hA show ?thesis by simp
      next
        case nA: False
        show ?thesis
        proof (cases "k = B")
          case True
          with kv hB ab b0 show ?thesis by simp
        next
          case False
          from others[OF nA False kv] have "v = 0" .
          with ab b0 show ?thesis by simp
        qed
      qed
    qed
    have M: "?M = a"
      by (rule Max_eqI) (simp, rule le, assumption, rule ain)
    with pos have apos: "0 < a" by simp
    have "map_of ?n A = Some 1" using hA M apos by (simp add: map_of_normalised)
    moreover have "map_of ?n B = Some (1 / 2)"
      using hB M apos ab by (simp add: map_of_normalised)
    ultimately show ?thesis by simp
  qed
  show ?thesis
  proof (intro exI conjI impI)
    show "keyword_based_emotion_detection text = Inr ?n" by (rule k)
    show "?n = ?n" by (rule refl)
    show "map_of ?n c = Some 1" if "map_of raw c = Some ?M" using that by (rule top)
    show "map_of ?n A = Some 1"
      if "map_of raw A = Some a \<and> map_of raw B = Some b \<and> A \<noteq> B \<and> a = 2 * b
           \<and> (\<forall>k v. k \<noteq> A \<and> k \<noteq> B \<and> map_of raw k = Some v \<longrightarrow> v = 0)"
      using two[OF that] by (rule conjunct1)
    show "map_of ?n B = Some (1 / 2)"
      if "map_of raw A = Some a \<and> map_of raw B = Some b \<and> A \<noteq> B \<and> a = 2 * b
           \<and> (\<forall>k v. k \<noteq> A \<and> k \<noteq> B \<and> map_of raw k = Some v \<longrightarrow> v = 0)"
      using two[OF that] by (rule conjunct2)
  qed
qed

theorem normalisation_divides_by_maximum_witness:
  "count_emotions (py_lower ''joy joy sad'') emotion_keywords
     (map (\<lambda>(emotion, kws). (emotion, 0)) emotion_keywords)
     = Inr [(''happy'', 2), (''sad'', 1), (''angry'', 0), (''fear'', 0), (''surprise'', 0)]
   \<and> 0 < Max (set (dict_values
         [(''happy'', 2), (''sad'', 1), (''angry'', 0), (''fear'', 0), (''surprise'', 0)]))
   \<and> keyword_based_emotion_detection ''joy joy sad''
       = Inr [(''happy'', 1), (''sad'', 1 / 2), (''angry'', 0), (''fear'', 0), (''surprise'', 0)]
   \<and> (map_of [(''happy'', 2), (''sad'', 1), (''angry'', 0), (''fear'', 0), (''surprise'', 0 :: real)]
          ''happy'' = Some 2
        \<and> map_of [(''happy'', 2), (''sad'', 1), (''angry'', 0), (''fear'', 0), (''surprise'', 0 :: real)]
          ''sad'' = Some 1)"
proof -
  let ?raw = "[(''happy'', 2), (''sad'', 1), (''angry'', 0), (''fear'', 0), (''surprise'', 0 :: real)]"
  have "raw_scores ''joy joy sad'' = ?raw"
    by (simp add: raw_scores_rows joy_happy joy_sad joy_angry joy_fear joy_surprise)
  then have raw: "count_emotions (py_lower ''joy joy sad'') emotion_keywords
               (map (\<lambda>(emotion, kws). (emotion, 0)) emotion_keywords) = Inr ?raw"
    by (simp only: joy_lower count_emotions_raw)
  have M: "Max (set (dict_values ?raw)) = 2" by (simp add: dict_values_def)
  have pos: "0 < Max (set (dict_values ?raw))" using M by simp
  from normalisation_divides_by_maximum[OF raw pos, of "''happy''" "''happy''" 2 "''sad''" 1]
  obtain scores where
    s: "keyword_based_emotion_detection ''joy joy sad'' = Inr scores"
    and e: "scores = map (\<lambda>(k, v). (k, v / Max (set (dict_values ?raw)))) ?raw"
    by (elim exE conjE)
  from e have "scores = [(''happy'', 1), (''sad'', 1 / 2), (''angry'', 0), (''fear'', 0), (''surprise'', 0)]"
    unfolding M by simp
  with s have res: "keyword_based_emotion_detection ''joy joy sad''
       = Inr [(''happy'', 1), (''sad'', 1 / 2), (''angry'', 0), (''fear'', 0), (''surprise'', 0)]"
    by simp
  have inner: "map_of ?raw ''happy'' = Some 2 \<and> map_of ?raw ''sad'' = Some 1"
    by simp
  from conjI[OF raw conjI[OF pos conjI[OF res inner]]] show ?thesis .
qed

section \<open>The selector returns the first item that holds the maximum\<close>

lemma max_loop_first:
  "find (\<lambda>x. key x = key (max_loop key b xs)) (b # xs) = Some (max_loop key b xs)"
proof (induction xs arbitrary: b)
  case Nil
  show ?case by simp
next
  case (Cons y ys)
  show ?case
  proof (cases "key b < key y")
    case True
    let ?r = "max_loop key y ys"
    have r: "max_loop key b (y # ys) = ?r" using True by simp
    have "key y \<le> key ?r" by (rule max_loop_ge) simp
    with True have nb: "key b \<noteq> key ?r" by linarith
    have "find (\<lambda>x. key x = key ?r) (b # y # ys) = find (\<lambda>x. key x = key ?r) (y # ys)"
      by (simp only: find.simps nb if_False)
    also have "\<dots> = Some ?r" by (rule Cons.IH)
    finally show ?thesis unfolding r .
  next
    case False
    let ?r = "max_loop key b ys"
    have r: "max_loop key b (y # ys) = ?r" using False by simp
    have IH: "find (\<lambda>x. key x = key ?r) (b # ys) = Some ?r" by (rule Cons.IH)
    show ?thesis
    proof (cases "key ?r = key b")
      case True
      have "find (\<lambda>x. key x = key ?r) (b # ys) = Some b"
        by (simp only: find.simps True simp_thms if_True)
      from IH[symmetric] this have "Some ?r = Some b" by (rule trans)
      then have rb: "Some b = Some ?r" by (rule sym)
      have "find (\<lambda>x. key x = key ?r) (b # y # ys) = Some b"
        by (simp only: find.simps True simp_thms if_True)
      also note rb
      finally show ?thesis unfolding r .
    next
      case nr: False
      have ge: "key b \<le> key ?r" by (rule max_loop_ge) simp
      from ge nr False have ny: "key y \<noteq> key ?r" by linarith
      from nr have nb: "key b \<noteq> key ?r" by (rule not_sym)
      have "find (\<lambda>x. key x = key ?r) (b # y # ys) = find (\<lambda>x. key x = key ?r) ys"
        by (simp only: find.simps ny nb if_False)
      also have "\<dots> = find (\<lambda>x. key x = key ?r) (b # ys)"
        by (simp only: find.simps nb if_False)
      also have "\<dots> = Some ?r" by (rule IH)
      finally show ?thesis unfolding r .
    qed
  qed
qed

lemma find_keys:
  "distinct (map fst scores) \<Longrightarrow>
   find (\<lambda>c. map_of scores c = Some m) (map fst scores)
     = map_option fst (find (\<lambda>x. snd x = m) scores)"
proof (induction scores)
  case Nil
  show ?case by simp
next
  case (Cons p ps)
  obtain k v where p: "p = (k, v)" by (cases p)
  from Cons.prems have nk: "k \<notin> fst ` set ps" and d: "distinct (map fst ps)"
    unfolding p by simp_all
  have same: "(map_of ((k, v) # ps) c = Some m) = (map_of ps c = Some m)"
    if "c \<in> set (map fst ps)" for c
  proof -
    from that nk have "c \<noteq> k" by auto
    then show ?thesis by simp
  qed
  have rest: "find (\<lambda>c. map_of ((k, v) # ps) c = Some m) (map fst ps)
          = find (\<lambda>c. map_of ps c = Some m) (map fst ps)"
    by (rule find_cong[OF refl]) (rule same)
  show ?case
  proof (cases "v = m")
    case True
    then show ?thesis unfolding p by simp
  next
    case False
    have "find (\<lambda>c. map_of ((k, v) # ps) c = Some m) (map fst ((k, v) # ps))
            = find (\<lambda>c. map_of ((k, v) # ps) c = Some m) (map fst ps)"
      using False by simp
    also note rest
    also have "find (\<lambda>c. map_of ps c = Some m) (map fst ps)
                 = map_option fst (find (\<lambda>x. snd x = m) ps)"
      by (rule Cons.IH[OF d])
    also have "\<dots> = map_option fst (find (\<lambda>x. snd x = m) ((k, v) # ps))"
      using False by simp
    finally show ?thesis unfolding p .
  qed
qed

lemma find_max_item:
  assumes "emotions \<noteq> []"
  shows "find (\<lambda>x. snd x = Max (set (dict_values emotions))) emotions
           = Some (max_loop snd (hd emotions) (tl emotions))"
proof -
  from assms have e: "hd emotions # tl emotions = emotions" by simp
  have "find (\<lambda>x. snd x = snd (max_loop snd (hd emotions) (tl emotions)))
          (hd emotions # tl emotions) = Some (max_loop snd (hd emotions) (tl emotions))"
    by (rule max_loop_first)
  then show ?thesis
    unfolding e max_loop_snd_Max[OF assms] .
qed

lemma gde_label:
  assumes "emotions \<noteq> []" and "\<exists>v\<in>set (dict_values emotions). v \<noteq> 0"
  shows "\<exists>label. get_dominant_emotion emotions = Inr (label, Max (set (dict_values emotions)))
           \<and> (if Max (set (dict_values emotions)) < 1 / 10 then label = ''calm''
               else map_option fst
                      (find (\<lambda>x. snd x = Max (set (dict_values emotions))) emotions)
                    = Some label)"
proof -
  let ?best = "max_loop snd (hd emotions) (tl emotions)"
  let ?M = "Max (set (dict_values emotions))"
  have M: "snd ?best = ?M" using assms(1) by (rule max_loop_snd_Max)
  have g: "get_dominant_emotion emotions =
             (if ?M < 1 / 10 then Inr (''calm'', ?M) else Inr (fst ?best, ?M))"
    using gde_not_neutral[OF assms] M[symmetric] by (simp add: Let_def)
  have f: "map_option fst (find (\<lambda>x. snd x = ?M) emotions) = Some (fst ?best)"
    by (simp only: find_max_item[OF assms(1)] option.map)
  show ?thesis
  proof (cases "?M < 1 / 10")
    case True
    with g have "get_dominant_emotion emotions = Inr (''calm'', ?M)" by simp
    with True show ?thesis by simp
  next
    case False
    with g have "get_dominant_emotion emotions = Inr (fst ?best, ?M)" by simp
    with False f show ?thesis by simp
  qed
qed

lemma scorer_label:
  assumes "0 < length (py_split text)"
  shows "\<exists>scores label confidence.
           keyword_based_emotion_detection text = Inr scores
           \<and> get_dominant_emotion scores = Inr (label, confidence)
           \<and> spec_tie_break scores = Some label"
proof -
  from assms have "py_split text \<noteq> []" by simp
  from kbed_words[OF this] obtain scores where
    kk: "keyword_based_emotion_detection text = Inr scores
      \<and> map fst scores = categories
      \<and> 1 / 10 \<le> Max (set (dict_values scores))" ..
  then have k: "keyword_based_emotion_detection text = Inr scores"
    and keys: "map fst scores = categories"
    and big: "1 / 10 \<le> Max (set (dict_values scores))"
    by (rule conjunct1, rule conjunct2[THEN conjunct1], rule conjunct2[THEN conjunct2])
  have ne: "scores \<noteq> []"
  proof
    assume "scores = []"
    with keys show False by simp
  qed
  let ?best = "max_loop snd (hd scores) (tl scores)"
  let ?M = "Max (set (dict_values scores))"
  have g: "get_dominant_emotion scores = Inr (fst ?best, snd ?best)"
    using gde_strong[OF ne big] by simp
  have d: "distinct (map fst scores)" by (simp only: keys) simp
  have "spec_tie_break scores = find (\<lambda>c. map_of scores c = Some ?M) (map fst scores)"
    by (simp only: spec_tie_break_def keys)
  also have "\<dots> = map_option fst (find (\<lambda>x. snd x = ?M) scores)"
    using d by (rule find_keys)
  also have "\<dots> = Some (fst ?best)"
    by (simp only: find_max_item[OF ne] option.map)
  finally have t: "spec_tie_break scores = Some (fst ?best)" .
  show ?thesis
  proof (intro exI conjI)
    show "keyword_based_emotion_detection text = Inr scores" by (rule k)
    show "get_dominant_emotion scores = Inr (fst ?best, snd ?best)" by (rule g)
    show "spec_tie_break scores = Some (fst ?best)" by (rule t)
  qed
qed

text \<open>The dictionary \<^verbatim>\<open>analyze_emotion_text2emotion\<close> builds has its keys in the order of
  \<^verbatim>\<open>emotion_mapping\<close>: happy, angry, sad, surprise, fear.\<close>

lemma text2emotion_key_order:
  "analyze_emotion_text2emotion
     (\<lambda>t. Inr [(''Happy'', 0), (''Angry'', 1 / 2), (''Surprise'', 0), (''Sad'', 1 / 2), (''Fear'', 0)])
     ''torn''
   = Inr [(''happy'', 0), (''angry'', 1 / 2), (''sad'', 1 / 2), (''surprise'', 0), (''fear'', 0)]"
  by (simp add: analyze_emotion_text2emotion_def emotion_mapping_def dict_get_default_def)

section \<open>Claim about ties\<close>

text \<open>
  Claim C8, as amended. In a score map that is neither empty nor all-zero the selector
  reports the maximum as confidence and picks the first item, in the iteration order of
  the score map itself, that holds the maximum: that item's category is the label when
  the maximum is at least 0.1, and the label is \<^verbatim>\<open>'calm'\<close> when it is below. For every score
  map the keyword scorer produces from a text with at least one word, the iteration order
  is the declaration order of the lexicon and the maximum is at least 0.1, so there the
  label is the earliest-declared category that attains the maximum.
\<close>

theorem tie_break_first_in_iteration_order:
  "(emotions \<noteq> [] \<and> (\<exists>v\<in>set (dict_values emotions). v \<noteq> 0) \<longrightarrow>
      (\<exists>label. get_dominant_emotion emotions = Inr (label, Max (set (dict_values emotions)))
         \<and> (if Max (set (dict_values emotions)) < 1 / 10 then label = ''calm''
             else map_option fst
                    (find (\<lambda>x. snd x = Max (set (dict_values emotions))) emotions)
                  = Some label)))
   \<and> (0 < length (py_split text) \<longrightarrow>
      (\<exists>scores label confidence.
          keyword_based_emotion_detection text = Inr scores
          \<and> get_dominant_emotion scores = Inr (label, confidence)
          \<and> spec_tie_break scores = Some label))"
proof (intro conjI impI)
  assume "emotions \<noteq> [] \<and> (\<exists>v\<in>set (dict_values emotions). v \<noteq> 0)"
  then have "emotions \<noteq> []" and "\<exists>v\<in>set (dict_values emotions). v \<noteq> 0"
    by (rule conjunct1, rule conjunct2)
  then show "\<exists>label. get_dominant_emotion emotions = Inr (label, Max (set (dict_values emotions)))
         \<and> (if Max (set (dict_values emotions)) < 1 / 10 then label = ''calm''
             else map_option fst
                    (find (\<lambda>x. snd x = Max (set (dict_values emotions))) emotions)
                  = Some label)"
    by (rule gde_label)
next
  assume "0 < length (py_split text)"
  then show "\<exists>scores label confidence.
          keyword_based_emotion_detection text = Inr scores
          \<and> get_dominant_emotion scores = Inr (label, confidence)
          \<and> spec_tie_break scores = Some label"
    by (rule scorer_label)
qed

theorem tie_break_first_in_iteration_order_witness:
  "[(''happy'', 0), (''angry'', 1 / 2), (''sad'', 1 / 2 :: real)] \<noteq> []
   \<and> (\<exists>v\<in>set (dict_values [(''happy'', 0), (''angry'', 1 / 2), (''sad'', 1 / 2)]). v \<noteq> 0)
   \<and> 0 < length (py_split ''so glad'')
   \<and> get_dominant_emotion [(''happy'', 0), (''angry'', 1 / 2), (''sad'', 1 / 2)]
       = Inr (''angry'', 1 / 2)
   \<and> (\<exists>scores label confidence.
          keyword_based_emotion_detection ''so glad'' = Inr scores
          \<and> get_dominant_emotion scores = Inr (label, confidence)
          \<and> spec_tie_break scores = Some label)"
proof -
  let ?m = "[(''happy'', 0), (''angry'', 1 / 2), (''sad'', 1 / 2 :: real)]"
  note t = tie_break_first_in_iteration_order[of ?m "''so glad''"]
  have a: "?m \<noteq> []" by simp
  have b: "\<exists>v\<in>set (dict_values ?m). v \<noteq> 0"
    by (rule bexI[of _ "1 / 2"]) (simp_all add: dict_values_def)
  have c: "0 < length (py_split ''so glad'')"
    by (simp add: py_split_def py_isspace_def code_point_def)
  have M: "Max (set (dict_values ?m)) = 1 / 2" by (simp add: dict_values_def)
  from t[THEN conjunct1, rule_format, OF conjI[OF a b]] obtain label where
    l: "get_dominant_emotion ?m = Inr (label, Max (set (dict_values ?m)))
        \<and> (if Max (set (dict_values ?m)) < 1 / 10 then label = ''calm''
            else map_option fst (find (\<lambda>x. snd x = Max (set (dict_values ?m))) ?m) = Some label)" ..
  then have "label = ''angry''" unfolding M by simp
  with l have g: "get_dominant_emotion ?m = Inr (''angry'', 1 / 2)" unfolding M by simp
  note s = t[THEN conjunct2, rule_format, OF c]
  from conjI[OF a conjI[OF b conjI[OF c conjI[OF g s]]]] show ?thesis .
qed

text \<open>
  Claim C8 as the specification states it, with the label always the earliest-declared
  category attaining the maximum, fails on two score maps. With the keys in the order
  \<^verbatim>\<open>analyze_emotion_text2emotion\<close> produces and angry tied with sad, the label is angry
  although sad is declared first. With happy tied with sad at 0.05, the label is calm.
\<close>

theorem tie_break_lexicon_order_counterexample:
  "get_dominant_emotion
     [(''happy'', 0), (''angry'', 1 / 2), (''sad'', 1 / 2), (''surprise'', 0), (''fear'', 0)]
     = Inr (''angry'', 1 / 2)
   \<and> spec_tie_break
     [(''happy'', 0), (''angry'', 1 / 2), (''sad'', 1 / 2), (''surprise'', 0), (''fear'', 0)]
     = Some ''sad''
   \<and> get_dominant_emotion
     [(''happy'', 1 / 20), (''sad'', 1 / 20), (''angry'', 0), (''fear'', 0), (''surprise'', 0)]
     = Inr (''calm'', 1 / 20)
   \<and> spec_tie_break
     [(''happy'', 1 / 20), (''sad'', 1 / 20), (''angry'', 0), (''fear'', 0), (''surprise'', 0)]
     = Some ''happy''"
  by (simp add: get_dominant_emotion_def py_max_key_def dict_values_def spec_tie_break_def)

section \<open>The text without any keyword\<close>

text \<open>The raw counts of "the weather is mild today": no category has a match.\<close>

lemma weather_lower: "py_lower ''the weather is mild today'' = ''the weather is mild today''"
  by (simp add: py_lower_def lower_char_def code_point_def)

lemma weather_words: "py_split ''the weather is mild today'' \<noteq> []"
  by (simp add: py_split_Nil py_isspace_def code_point_def)

lemma weather_happy: "category_count ''the weather is mild today'' (keywords_of ''happy'') = 0"
  by (simp add: keywords_of_def emotion_keywords_def scan_eval)

lemma weather_sad: "category_count ''the weather is mild today'' (keywords_of ''sad'') = 0"
  by (simp add: keywords_of_def emotion_keywords_def scan_eval)

lemma weather_angry: "category_count ''the weather is mild today'' (keywords_of ''angry'') = 0"
  by (simp add: keywords_of_def emotion_keywords_def scan_eval)

lemma weather_fear: "category_count ''the weather is mild today'' (keywords_of ''fear'') = 0"
  by (simp add: keywords_of_def emotion_keywords_def scan_eval)

lemma weather_surprise: "category_count ''the weather is mild today'' (keywords_of ''surprise'') = 0"
  by (simp add: keywords_of_def emotion_keywords_def scan_eval)

text \<open>
  Claim C1, evaluated on its input. On "the weather is mild today" no keyword matches and
  the scorer returns \<^verbatim>\<open>happy\<close> at 0.1 and every other category at 0.0, as the claim says. The
  selector applied to that score map returns \<^verbatim>\<open>('happy', 0.1)\<close>: the baseline 0.1 is not
  below the threshold 0.1, so the label is not replaced by \<^verbatim>\<open>'calm'\<close>, which is what the
  claim and the comment "If no emotions detected, return neutral (calm)" of the scorer
  expect.
\<close>

theorem no_signal_baseline_selects_happy:
  "keyword_based_emotion_detection ''the weather is mild today''
     = Inr [(''happy'', 1 / 10), (''sad'', 0), (''angry'', 0), (''fear'', 0), (''surprise'', 0)]
   \<and> get_dominant_emotion
       [(''happy'', 1 / 10), (''sad'', 0), (''angry'', 0), (''fear'', 0), (''surprise'', 0)]
     = Inr (''happy'', 1 / 10)"
proof
  have "raw_scores (py_lower ''the weather is mild today'') = zero_scores"
    by (simp add: weather_lower raw_scores_rows
        weather_happy weather_sad weather_angry weather_fear weather_surprise)
  then have "\<forall>v\<in>set (dict_values (raw_scores (py_lower ''the weather is mild today''))). v = 0"
    by (simp add: dict_values_def)
  with weather_words
  show "keyword_based_emotion_detection ''the weather is mild today'' = Inr baseline_scores"
    by (rule kbed_no_match)
  show "get_dominant_emotion baseline_scores = Inr (''happy'', 1 / 10)"
    by (simp add: get_dominant_emotion_def py_max_key_def dict_values_def)
qed

end
